theory Spec2Isabelle
  imports Complex_Main
begin

section \<open>Python strings\<close>

text \<open>
  A Python \<open>str\<close> is modelled as a \<open>string\<close> holding its UTF-8 encoding, which is also
  what the program writes to its files (\<open>encoding='utf-8'\<close>). The characters of a text
  are the pieces of its encoding that \<open>chars\<close> cuts it into: every byte that is not a
  continuation byte, with the continuation bytes that follow it.
\<close>

definition is_continuation :: "char \<Rightarrow> bool" where
  "is_continuation c \<longleftrightarrow> 128 \<le> (of_char c :: nat) \<and> (of_char c :: nat) < 192"

definition continues :: "string \<Rightarrow> bool" where
  "continues c = (case c of [] \<Rightarrow> False | b # bs \<Rightarrow> is_continuation b)"

fun chars :: "string \<Rightarrow> string list" where
  "chars [] = []"
| "chars (b # bs) =
     (case chars bs of
        [] \<Rightarrow> [[b]]
      | c # cs \<Rightarrow> if continues c then (b # c) # cs else [b] # c # cs)"

text \<open>\<open>len(s)\<close> counts the characters: the bytes that do not continue a UTF-8 sequence.\<close>

definition py_len :: "string \<Rightarrow> nat" where
  "py_len s = length (filter (\<lambda>c. \<not> is_continuation c) s)"

text \<open>
  The white space of \<open>str.split()\<close> and \<open>str.strip()\<close>, which is that of \<open>str.isspace()\<close>:
  U+0009 to U+000D, U+001C to U+001F, U+0020, U+0085, U+00A0, U+1680, U+2000 to U+200A,
  U+2028, U+2029, U+202F, U+205F and U+3000, each in its UTF-8 encoding.
\<close>

definition whitespace :: "string list" where
  "whitespace =
     map (\<lambda>b. [b])
       [CHR 0x09, CHR 0x0A, CHR 0x0B, CHR 0x0C, CHR 0x0D,
        CHR 0x1C, CHR 0x1D, CHR 0x1E, CHR 0x1F, CHR 0x20] @
     [[CHR 0xC2, CHR 0x85], [CHR 0xC2, CHR 0xA0], [CHR 0xE1, CHR 0x9A, CHR 0x80]] @
     map (\<lambda>b. [CHR 0xE2, CHR 0x80, b])
       [CHR 0x80, CHR 0x81, CHR 0x82, CHR 0x83, CHR 0x84, CHR 0x85, CHR 0x86, CHR 0x87,
        CHR 0x88, CHR 0x89, CHR 0x8A, CHR 0xA8, CHR 0xA9, CHR 0xAF] @
     [[CHR 0xE2, CHR 0x81, CHR 0x9F], [CHR 0xE3, CHR 0x80, CHR 0x80]]"

definition isspace :: "string \<Rightarrow> bool" where
  "isspace c \<longleftrightarrow> c \<in> set whitespace"

text \<open>\<open>s.split()\<close>: the maximal runs of characters that are not white space, in order.\<close>

fun split_acc :: "string \<Rightarrow> string list \<Rightarrow> string list" where
  "split_acc w [] = (if w = [] then [] else [w])"
| "split_acc w (c # cs) =
     (if isspace c then (if w = [] then split_acc [] cs else w # split_acc [] cs)
      else split_acc (w @ c) cs)"

definition split :: "string \<Rightarrow> string list" where
  "split s = split_acc [] (chars s)"

text \<open>\<open>s.strip()\<close>: the text without the white space at its two ends.\<close>

definition strip :: "string \<Rightarrow> string" where
  "strip s = concat (rev (dropWhile isspace (rev (dropWhile isspace (chars s)))))"

text \<open>
  \<open>s.lower()\<close> follows the case tables of Unicode that the interpreter carries, which are
  no part of the program: the detector below takes it as a parameter \<open>lower\<close>, and what is
  proved of it holds for every such function. On a text whose letters are ASCII
  \<open>s.lower()\<close> maps \<open>A\<close> to \<open>Z\<close> to \<open>a\<close> to \<open>z\<close> and leaves the rest, white space of any kind
  included; that is \<open>lower_ascii\<close>, which stands for it in the examples, whose letters
  are ASCII.
\<close>

definition lower_char :: "char \<Rightarrow> char" where
  "lower_char c =
     (case map_of (zip ''ABCDEFGHIJKLMNOPQRSTUVWXYZ'' ''abcdefghijklmnopqrstuvwxyz'') c of
        None \<Rightarrow> c
      | Some l \<Rightarrow> l)"

definition lower_ascii :: "string \<Rightarrow> string" where
  "lower_ascii s = map lower_char s"

text \<open>\<open>sep.join(xs)\<close>.\<close>

fun join :: "string \<Rightarrow> string list \<Rightarrow> string" where
  "join sep [] = []"
| "join sep [x] = x"
| "join sep (x # y # ys) = x @ sep @ join sep (y # ys)"

text \<open>\<open>phrase in text\<close>: \<open>phrase\<close> occurs in \<open>text\<close> as a contiguous run.\<close>

fun starts_with :: "string \<Rightarrow> string \<Rightarrow> bool" where
  "starts_with t [] = True"
| "starts_with [] (c # p) = False"
| "starts_with (d # t) (c # p) = (d = c \<and> starts_with t p)"

fun str_contains :: "string \<Rightarrow> string \<Rightarrow> bool" where
  "str_contains [] p = (p = [])"
| "str_contains (d # t) p = (starts_with (d # t) p \<or> str_contains t p)"

section \<open>The phrase detector (phrase_detector.py)\<close>

record detector =
  target_phrases :: "string list"
  context_window :: nat
  transcript_history :: "string list"
  detected_phrases :: "string list"

text \<open>\<open>PhraseDetector.__init__\<close>; \<open>target_phrases or []\<close> is the list itself.\<close>

definition init_detector :: "string list \<Rightarrow> nat \<Rightarrow> detector" where
  "init_detector phrases n =
     \<lparr>target_phrases = phrases, context_window = n,
      transcript_history = [], detected_phrases = []\<rparr>"

text \<open>\<open>deque(maxlen=n).append(x)\<close>: append on the right, then drop the oldest entry
  when the bound is exceeded (with \<open>n = 0\<close> the deque stays empty).\<close>

definition deque_append :: "nat \<Rightarrow> string list \<Rightarrow> string \<Rightarrow> string list" where
  "deque_append n h x = (if length (h @ [x]) > n then tl (h @ [x]) else h @ [x])"

definition add_target_phrase :: "detector \<Rightarrow> string \<Rightarrow> detector" where
  "add_target_phrase d phrase =
     (if phrase \<noteq> [] \<and> phrase \<notin> set (target_phrases d)
      then d\<lparr>target_phrases := target_phrases d @ [phrase]\<rparr>
      else d)"

definition remove_target_phrase :: "detector \<Rightarrow> string \<Rightarrow> detector" where
  "remove_target_phrase d phrase =
     (if phrase \<in> set (target_phrases d)
      then d\<lparr>target_phrases := remove1 phrase (target_phrases d)\<rparr>
      else d)"

text \<open>\<open>all(word in text_words for word in phrase_words)\<close>.\<close>

definition all_words_present :: "string list \<Rightarrow> string list \<Rightarrow> bool" where
  "all_words_present text_words phrase_words =
     list_all (\<lambda>word. word \<in> set text_words) phrase_words"

text \<open>\<open>sum(1 for word in phrase_words if word in text_words)\<close>.\<close>

definition matches :: "string list \<Rightarrow> string list \<Rightarrow> nat" where
  "matches text_words phrase_words =
     length (filter (\<lambda>word. word \<in> set text_words) phrase_words)"

text \<open>
  \<open>_detect_phrase\<close>. The quotient \<open>matches / len(phrase_words)\<close> is Python's true
  division of two integers, which is correctly rounded, and \<open>0.75\<close> is a binary
  fraction; the comparison is therefore the one of the exact quotient for every phrase
  of fewer than \<open>2 ^ 52\<close> words, and the quotient is taken in the rationals here.
\<close>

definition match_threshold :: rat where
  "match_threshold = 75 / 100"

definition detect_phrase :: "string \<Rightarrow> string \<Rightarrow> bool" where
  "detect_phrase text phrase =
     (if str_contains text phrase then True
      else let phrase_words = split phrase; text_words = split text in
        if length phrase_words \<le> 2 then all_words_present text_words phrase_words
        else of_nat (matches text_words phrase_words) / of_nat (length phrase_words)
               \<ge> match_threshold)"

text \<open>The loop of \<open>process_transcript\<close> over the target phrases: the state is the pair
  of \<open>self.detected_phrases\<close> and \<open>new_detections\<close>.\<close>

fun detect_loop :: "(string \<Rightarrow> string) \<Rightarrow> string \<Rightarrow> string list \<Rightarrow> string list \<times> string list
    \<Rightarrow> string list \<times> string list" where
  "detect_loop lower combined_text [] (detected, new_detections) = (detected, new_detections)"
| "detect_loop lower combined_text (phrase # rest) (detected, new_detections) =
     (if detect_phrase combined_text (lower phrase) \<and> phrase \<notin> set detected
      then detect_loop lower combined_text rest (detected @ [phrase], new_detections @ [phrase])
      else detect_loop lower combined_text rest (detected, new_detections))"

text \<open>The joined lower-case text of a window.\<close>

definition combined_text :: "(string \<Rightarrow> string) \<Rightarrow> string list \<Rightarrow> string" where
  "combined_text lower history = lower (join '' '' history)"

text \<open>\<open>process_transcript\<close> returns the new detections and the updated detector.\<close>

definition process_transcript :: "(string \<Rightarrow> string) \<Rightarrow> detector \<Rightarrow> string
    \<Rightarrow> string list \<times> detector" where
  "process_transcript lower d transcript_chunk =
     (if transcript_chunk = [] \<or> target_phrases d = [] then ([], d)
      else
        let history = deque_append (context_window d) (transcript_history d) transcript_chunk;
            (detected, new_detections) =
               detect_loop lower (combined_text lower history) (target_phrases d)
                 (detected_phrases d, [])
        in (new_detections, d\<lparr>transcript_history := history, detected_phrases := detected\<rparr>))"

definition reset :: "detector \<Rightarrow> detector" where
  "reset d = d\<lparr>transcript_history := [], detected_phrases := []\<rparr>"

definition get_detected_phrases :: "detector \<Rightarrow> string list" where
  "get_detected_phrases d = detected_phrases d"

text \<open>The phrases one pass of the loop adds, given the phrases fired before it.\<close>

fun hits :: "(string \<Rightarrow> string) \<Rightarrow> string \<Rightarrow> string list \<Rightarrow> string list \<Rightarrow> string list" where
  "hits lower text [] detected = []"
| "hits lower text (phrase # rest) detected =
     (if detect_phrase text (lower phrase) \<and> phrase \<notin> set detected
      then phrase # hits lower text rest (detected @ [phrase])
      else hits lower text rest detected)"

text \<open>A run of the detector: the calls a client makes on it, and what they return.\<close>

datatype call = Process string | Add string | Remove string | Reset

fun step :: "(string \<Rightarrow> string) \<Rightarrow> detector \<Rightarrow> call \<Rightarrow> string list \<times> detector" where
  "step lower d (Process chunk) = process_transcript lower d chunk"
| "step lower d (Add phrase) = ([], add_target_phrase d phrase)"
| "step lower d (Remove phrase) = ([], remove_target_phrase d phrase)"
| "step lower d Reset = ([], reset d)"

fun run :: "(string \<Rightarrow> string) \<Rightarrow> detector \<Rightarrow> call list \<Rightarrow> string list \<times> detector" where
  "run lower d [] = ([], d)"
| "run lower d (c # cs) =
     (let (out, d') = step lower d c; (outs, d'') = run lower d' cs in (out @ outs, d''))"

section \<open>The processor's transcript files (main.py)\<close>

text \<open>What a call into a collaborator gives back: an exception, or a value.\<close>

datatype 'a outcome = Raised | Returned 'a

text \<open>\<open>str(n)\<close> for a natural number, and the format \<open>{n:03d}\<close>.\<close>

fun str_nat :: "nat \<Rightarrow> string" where
  "str_nat n =
     (if n < 10 then [''0123456789'' ! n]
      else str_nat (n div 10) @ [''0123456789'' ! (n mod 10)])"

declare str_nat.simps [simp del]

definition format_03d :: "nat \<Rightarrow> string" where
  "format_03d n = replicate (3 - length (str_nat n)) (CHR ''0'') @ str_nat n"

text \<open>\<open>os.path.join\<close> of two components, as \<open>posixpath\<close> has it.\<close>

definition path_join :: "string \<Rightarrow> string \<Rightarrow> string" where
  "path_join a b =
     (if starts_with b ''/'' then b
      else if a = [] \<or> last a = CHR ''/'' then a @ b
      else a @ ''/'' @ b)"

text \<open>The emoji of the summary's labels, in UTF-8.\<close>

definition clapper_board :: string where
  "clapper_board = [CHR 0xF0, CHR 0x9F, CHR 0x8E, CHR 0xAC]"

definition calendar :: string where
  "calendar = [CHR 0xF0, CHR 0x9F, CHR 0x93, CHR 0x85]"

definition bar_chart :: string where
  "bar_chart = [CHR 0xF0, CHR 0x9F, CHR 0x93, CHR 0x8A]"

definition memo :: string where
  "memo = [CHR 0xF0, CHR 0x9F, CHR 0x93, CHR 0x9D]"

definition magnifying_glass :: string where
  "magnifying_glass = [CHR 0xF0, CHR 0x9F, CHR 0x94, CHR 0x8D]"

definition open_folder :: string where
  "open_folder = [CHR 0xF0, CHR 0x9F, CHR 0x93, CHR 0x82]"

text \<open>
  The file system: the content of every file that exists, and the paths that can be opened
  for writing. \<open>open(path, 'w')\<close> on a path that cannot be opened raises, which is
  \<open>None\<close> here; otherwise the file holds exactly what was written.
\<close>

record world =
  files :: "string \<rightharpoonup> string"
  writable :: "string \<Rightarrow> bool"

definition write_file :: "world \<Rightarrow> string \<Rightarrow> string \<Rightarrow> world option" where
  "write_file w path content =
     (if writable w path then Some (w\<lparr>files := (files w)(path \<mapsto> content)\<rparr>) else None)"

text \<open>
  What the clock shows at the calls of \<open>time.strftime\<close> in one call of a method, a field
  for each call in the order of the calls. \<open>_save_transcript_chunk\<close> reads the clock four
  times: \<open>%Y%m%d_%H%M%S\<close> for the name of the segment file, \<open>%Y-%m-%d %H:%M:%S\<close> for the
  segment's \<open>Timestamp\<close> line, \<open>%H:%M:%S\<close> for the new line of the running transcript and
  \<open>%Y-%m-%d %H:%M:%S\<close> for the \<open>Started\<close> line of the snapshot. \<open>_save_final_transcript\<close>
  reads it once, \<open>%Y-%m-%d %H:%M:%S\<close> for the \<open>Date\<close> line, which is \<open>stamp_datetime\<close>.
\<close>

record clock =
  stamp_compact :: string
  stamp_datetime :: string
  stamp_time :: string
  stamp_started :: string

record processor =
  url :: string
  p_target_phrases :: "string list"
  output_dir :: string
  screenshots_dir :: string
  transcripts_dir :: string
  transcript_counter :: nat
  full_transcript :: string
  last_extraction_time :: real

text \<open>\<open>YouTubeLiveProcessor.__init__\<close>, with \<open>last_extraction_time\<close> as \<open>setup\<close> sets it.\<close>

definition init_processor :: "string \<Rightarrow> string list \<Rightarrow> string \<Rightarrow> processor" where
  "init_processor u phrases dir =
     \<lparr>url = u, p_target_phrases = phrases, output_dir = dir,
      screenshots_dir = path_join dir ''screenshots'',
      transcripts_dir = path_join dir ''transcripts'',
      transcript_counter = 0, full_transcript = [], last_extraction_time = 0\<rparr>"

definition segment_path :: "processor \<Rightarrow> clock \<Rightarrow> nat \<Rightarrow> string" where
  "segment_path p clk n =
     path_join (transcripts_dir p)
       (''segment_'' @ format_03d n @ ''_'' @ stamp_compact clk @ ''.txt'')"

definition segment_record :: "processor \<Rightarrow> clock \<Rightarrow> nat \<Rightarrow> string \<Rightarrow> string" where
  "segment_record p clk n transcript_chunk =
     ''La Nation - Transcript Segment '' @ str_nat n @ [CHR 0x0A] @
     ''Timestamp: '' @ stamp_datetime clk @ [CHR 0x0A] @
     ''Video: '' @ url p @ [CHR 0x0A] @
     replicate 50 (CHR ''='') @ [CHR 0x0A, CHR 0x0A] @
     transcript_chunk"

definition full_transcript_path :: "processor \<Rightarrow> string" where
  "full_transcript_path p = path_join (transcripts_dir p) ''full_transcript.txt''"

definition full_transcript_record :: "processor \<Rightarrow> clock \<Rightarrow> nat \<Rightarrow> string \<Rightarrow> string" where
  "full_transcript_record p clk n transcript =
     ''La Nation - Complete Live Stream Transcript'' @ [CHR 0x0A] @
     ''Video: '' @ url p @ [CHR 0x0A] @
     ''Started: '' @ stamp_started clk @ [CHR 0x0A] @
     ''Segments processed: '' @ str_nat n @ [CHR 0x0A] @
     replicate 60 (CHR ''='') @ [CHR 0x0A] @
     transcript"

text \<open>
  \<open>_save_transcript_chunk\<close>. An exception of a write is caught at the end of the method,
  so what was assigned before it stays: the counter after a failed segment write, the
  counter and the running transcript after a failed snapshot write.
\<close>

definition save_transcript_chunk :: "processor \<Rightarrow> world \<Rightarrow> clock \<Rightarrow> string \<Rightarrow> processor \<times> world" where
  "save_transcript_chunk p w clk transcript_chunk =
     (let p1 = p\<lparr>transcript_counter := transcript_counter p + 1\<rparr> in
      case write_file w (segment_path p1 clk (transcript_counter p1))
             (segment_record p1 clk (transcript_counter p1) transcript_chunk) of
        None \<Rightarrow> (p1, w)
      | Some w1 \<Rightarrow>
          let p2 = p1\<lparr>full_transcript :=
                      full_transcript p1 @ [CHR 0x0A] @ ''['' @ stamp_time clk @ ''] '' @ transcript_chunk\<rparr>
          in case write_file w1 (full_transcript_path p2)
                    (full_transcript_record p2 clk (transcript_counter p2) (full_transcript p2)) of
               None \<Rightarrow> (p2, w1)
             | Some w2 \<Rightarrow> (p2, w2))"

definition final_path :: "processor \<Rightarrow> string" where
  "final_path p = path_join (output_dir p) ''final_transcript.txt''"

definition final_record :: "processor \<Rightarrow> clock \<Rightarrow> string" where
  "final_record p clk =
     replicate 60 (CHR ''='') @ [CHR 0x0A] @
     ''LA NATION - LIVE STREAM ANALYSIS COMPLETE'' @ [CHR 0x0A] @
     replicate 60 (CHR ''='') @ [CHR 0x0A, CHR 0x0A] @
     clapper_board @ '' Video URL: '' @ url p @ [CHR 0x0A] @
     calendar @ '' Date: '' @ stamp_datetime clk @ [CHR 0x0A] @
     bar_chart @ '' Total segments: '' @ str_nat (transcript_counter p) @ [CHR 0x0A] @
     memo @ '' Total characters: '' @ str_nat (py_len (full_transcript p)) @ [CHR 0x0A] @
     magnifying_glass @ '' Target phrases: '' @
       (if p_target_phrases p \<noteq> [] then join '', '' (p_target_phrases p) else ''None'') @ [CHR 0x0A] @
     open_folder @ '' Output directory: '' @ output_dir p @ [CHR 0x0A, CHR 0x0A] @
     ''COMPLETE TRANSCRIPT:'' @ [CHR 0x0A] @
     replicate 60 (CHR ''='') @ [CHR 0x0A] @
     full_transcript p"

text \<open>
  \<open>_save_final_transcript\<close> assigns to no attribute of the processor: it maps the file
  system to the file system. With an empty running transcript it only logs a warning; an
  exception of the write is caught and logged.
\<close>

definition save_final_transcript :: "processor \<Rightarrow> world \<Rightarrow> clock \<Rightarrow> world" where
  "save_final_transcript p w clk =
     (if full_transcript p \<noteq> [] then
        (case write_file w (final_path p) (final_record p clk) of
           None \<Rightarrow> w
         | Some w1 \<Rightarrow> w1)
      else w)"

text \<open>
  \<open>_process_audio_chunk_direct\<close>, given what \<open>_transcribe_audio_file\<close> did: it raised, or
  returned \<open>None\<close> or a string.
\<close>

definition process_audio_chunk_direct :: "string option outcome \<Rightarrow> string option" where
  "process_audio_chunk_direct transcription =
     (case transcription of
        Raised \<Rightarrow> None
      | Returned None \<Rightarrow> None
      | Returned (Some transcript) \<Rightarrow>
          if transcript \<noteq> [] \<and> strip transcript \<noteq> [] then Some (strip transcript) else None)"

text \<open>
  One pass of the loop of \<open>start\<close> at wall-clock time \<open>current_time\<close>: \<open>audio_file\<close> is
  what \<open>extract_audio\<close> returns when it is called, \<open>transcription\<close> what the transcriber
  does with it.
\<close>

definition cycle :: "processor \<Rightarrow> world \<Rightarrow> clock \<Rightarrow> real \<Rightarrow> string option \<Rightarrow> string option outcome \<Rightarrow> processor \<times> world" where
  "cycle p w clk current_time audio_file transcription =
     (if current_time - last_extraction_time p \<ge> 30 then
        (case audio_file of
           None \<Rightarrow> (p, w)
         | Some a \<Rightarrow>
             if a = [] then (p, w)
             else
               let (p1, w1) =
                     (case process_audio_chunk_direct transcription of
                        None \<Rightarrow> (p, w)
                      | Some transcript_chunk \<Rightarrow>
                          if transcript_chunk \<noteq> [] then save_transcript_chunk p w clk transcript_chunk
                          else (p, w))
               in (p1\<lparr>last_extraction_time := current_time\<rparr>, w1))
      else (p, w))"

section \<open>The acquisition chain (enhanced_youtube_stream.py)\<close>

text \<open>The attributes of \<open>EnhancedYouTubeStream\<close>; \<open>'f\<close> is the type of a format entry.\<close>

record 'f stream =
  s_url :: string
  video_id :: "string option"
  is_live :: bool
  title :: string
  stream_url :: "string option"
  format_info :: "'f option"
  stream_quality :: "string option"
  successful_strategy :: "string option"

datatype strategy = YtDlp | Streamlink | DirectExtraction

text \<open>
  The body of a \<open>_setup_with_...\<close> method inside its \<open>try\<close>: it talks to yt-dlp, to the
  streamlink process or to the web server, may assign attributes, and returns a truth
  value or raises. What it does is a parameter, one per strategy.
\<close>

type_synonym 'f strategy_body = "'f stream \<Rightarrow> bool outcome \<times> 'f stream"

text \<open>A \<open>_setup_with_...\<close> method: \<open>except Exception\<close> turns a raise into \<open>False\<close>.\<close>

definition setup_with :: "'f strategy_body \<Rightarrow> 'f stream \<Rightarrow> bool \<times> 'f stream" where
  "setup_with body s =
     (case body s of
        (Raised, s') \<Rightarrow> (False, s')
      | (Returned b, s') \<Rightarrow> (b, s'))"

text \<open>
  \<open>setup\<close>, named \<open>stream_setup\<close> since \<open>setup\<close> is a keyword of Isabelle. Beside its
  truth value and the stream it returns the strategies it has called, in the order of
  the calls.
\<close>

definition stream_setup :: "'f strategy_body \<Rightarrow> 'f strategy_body \<Rightarrow> 'f strategy_body \<Rightarrow> 'f stream
    \<Rightarrow> bool \<times> 'f stream \<times> strategy list" where
  "stream_setup ytdlp streamlink direct_extraction s =
     (let (ok1, s1) = setup_with ytdlp s in
      if ok1 then (True, s1\<lparr>successful_strategy := Some ''yt-dlp''\<rparr>, [YtDlp])
      else
        let (ok2, s2) = setup_with streamlink s1 in
        if ok2 then (True, s2\<lparr>successful_strategy := Some ''streamlink''\<rparr>, [YtDlp, Streamlink])
        else
          let (ok3, s3) = setup_with direct_extraction s2 in
          if ok3 then (True, s3\<lparr>successful_strategy := Some ''direct_extraction''\<rparr>,
                       [YtDlp, Streamlink, DirectExtraction])
          else (False, s3, [YtDlp, Streamlink, DirectExtraction]))"

section \<open>The screenshot capturer (screenshot_capturer.py)\<close>

text \<open>Times are the seconds of \<open>time.time()\<close>, taken as real numbers.\<close>

record capturer =
  c_output_dir :: string
  last_capture_time :: real
  min_capture_interval :: real

definition init_capturer :: "string \<Rightarrow> capturer" where
  "init_capturer dir = \<lparr>c_output_dir = dir, last_capture_time = 0, min_capture_interval = 2\<rparr>"

text \<open>
  \<open>capture_screenshot\<close> at time \<open>current_time\<close>. \<open>saved\<close> is what the \<open>try\<close> block that
  names and writes the image comes to when it is run: the path of the file, or \<open>None\<close>
  when an exception was caught. A throttled call returns \<open>None\<close> before that block and
  before the assignment to \<open>last_capture_time\<close>.
\<close>

definition capture_screenshot :: "capturer \<Rightarrow> real \<Rightarrow> bool \<Rightarrow> string option \<Rightarrow> string option \<times> capturer" where
  "capture_screenshot c current_time throttle saved =
     (if throttle \<and> current_time - last_capture_time c < min_capture_interval c then (None, c)
      else (saved, c\<lparr>last_capture_time := current_time\<rparr>))"

text \<open>A request proceeds when it gets past the throttle.\<close>

definition proceeds :: "capturer \<Rightarrow> real \<Rightarrow> bool \<Rightarrow> bool" where
  "proceeds c current_time throttle \<longleftrightarrow>
     \<not> (throttle \<and> current_time - last_capture_time c < min_capture_interval c)"

text \<open>A sequence of throttled requests, each with its time and what its \<open>try\<close> block
  would come to; the result tells for each request whether it proceeded and what it
  returned.\<close>

fun capture_all :: "capturer \<Rightarrow> (real \<times> string option) list \<Rightarrow> (bool \<times> string option) list" where
  "capture_all c [] = []"
| "capture_all c ((t, saved) # rest) =
     (proceeds c t True, fst (capture_screenshot c t True saved))
       # capture_all (snd (capture_screenshot c t True saved)) rest"

section \<open>Example values\<close>

text \<open>Two characters of white space outside ASCII: U+00A0, the no-break space, and
  U+2003, the em space.\<close>

definition nbsp :: string where
  "nbsp = [CHR 0xC2, CHR 0xA0]"

definition em_space :: string where
  "em_space = [CHR 0xE2, CHR 0x80, CHR 0x83]"

text \<open>A processor as \<open>main\<close> builds it, a file system with no file in which every path
  can be written, and the clock readings of two calls one second apart; during
  the first the second changes before the last reading.\<close>

definition demo_processor :: processor where
  "demo_processor = init_processor ''https://youtu.be/abc'' [''breaking news''] ''output''"

definition demo_world :: world where
  "demo_world = \<lparr>files = Map.empty, writable = (\<lambda>path. True)\<rparr>"

definition demo_clock :: clock where
  "demo_clock =
     \<lparr>stamp_compact = ''20240101_120000'', stamp_datetime = ''2024-01-01 12:00:00'',
      stamp_time = ''12:00:00'', stamp_started = ''2024-01-01 12:00:01''\<rparr>"

definition demo_clock_later :: clock where
  "demo_clock_later =
     \<lparr>stamp_compact = ''20240101_120001'', stamp_datetime = ''2024-01-01 12:00:01'',
      stamp_time = ''12:00:01'', stamp_started = ''2024-01-01 12:00:01''\<rparr>"

text \<open>The processor after one cycle that transcribed "hello world".\<close>

definition demo_processor_1 :: processor where
  "demo_processor_1 =
     fst (cycle demo_processor demo_world demo_clock 100 (Some ''chunk.wav'')
            (Returned (Some ''  hello world '')))"

text \<open>A stream as \<open>__init__\<close> leaves it, and strategy bodies: one that raises, one that
  finds no format, and two that succeed.\<close>

definition demo_stream :: "unit stream" where
  "demo_stream =
     \<lparr>s_url = ''https://youtu.be/abc'', video_id = Some ''abc'', is_live = False, title = [],
      stream_url = None, format_info = None, stream_quality = None, successful_strategy = None\<rparr>"

definition demo_raises :: "unit strategy_body" where
  "demo_raises s = (Raised, s)"

definition demo_streamlink :: "unit strategy_body" where
  "demo_streamlink s =
     (Returned True, s\<lparr>is_live := True, title := ''Live Stream'', stream_quality := Some ''720p''\<rparr>)"

definition demo_direct :: "unit strategy_body" where
  "demo_direct s = (Returned True, s\<lparr>title := ''From the page''\<rparr>)"

definition demo_no_formats :: "unit strategy_body" where
  "demo_no_formats s = (Returned False, s\<lparr>title := ''Unknown Video''\<rparr>)"

section \<open>Facts about the detector\<close>

lemma detect_loop_hits:
  "detect_loop lower text ps (detected, new) = (detected @ hits lower text ps detected, new @ hits lower text ps detected)"
  by (induction ps arbitrary: detected new) auto

lemma set_hits:
  "set (hits lower text ps detected) = {p \<in> set ps. detect_phrase text (lower p) \<and> p \<notin> set detected}"
  by (induction ps arbitrary: detected) auto

lemma distinct_hits: "distinct (hits lower text ps detected)"
  by (induction ps arbitrary: detected) (auto simp: set_hits)

lemma process_transcript_skip:
  "transcript_chunk = [] \<or> target_phrases d = [] \<Longrightarrow> process_transcript lower d transcript_chunk = ([], d)"
  by (auto simp: process_transcript_def)

lemma process_transcript_hits:
  "transcript_chunk \<noteq> [] \<Longrightarrow> target_phrases d \<noteq> [] \<Longrightarrow>
   process_transcript lower d transcript_chunk =
     (let history = deque_append (context_window d) (transcript_history d) transcript_chunk;
          new = hits lower (combined_text lower history) (target_phrases d) (detected_phrases d)
      in (new, d\<lparr>transcript_history := history, detected_phrases := detected_phrases d @ new\<rparr>))"
  by (simp add: process_transcript_def detect_loop_hits Let_def)

lemma process_detected:
  "detected_phrases (snd (process_transcript lower d c)) = detected_phrases d @ fst (process_transcript lower d c)"
  by (cases "c = [] \<or> target_phrases d = []")
     (auto simp: process_transcript_skip process_transcript_hits Let_def)

lemma process_distinct: "distinct (fst (process_transcript lower d c))"
  by (cases "c = [] \<or> target_phrases d = []")
     (auto simp: process_transcript_skip process_transcript_hits Let_def distinct_hits)

lemma process_fresh: "set (fst (process_transcript lower d c)) \<inter> set (detected_phrases d) = {}"
  by (cases "c = [] \<or> target_phrases d = []")
     (auto simp: process_transcript_skip process_transcript_hits Let_def set_hits)

lemma step_detected:
  "c \<noteq> Reset \<Longrightarrow> detected_phrases (snd (step lower d c)) = detected_phrases d @ fst (step lower d c)"
  by (cases c) (auto simp: process_detected add_target_phrase_def remove_target_phrase_def)

lemma step_distinct: "distinct (fst (step lower d c))"
  by (cases c) (auto simp: process_distinct)

lemma step_fresh: "set (fst (step lower d c)) \<inter> set (detected_phrases d) = {}"
  by (cases c) (auto simp: process_fresh)

lemma run_events:
  "Reset \<notin> set calls \<Longrightarrow>
     distinct (fst (run lower d calls)) \<and>
     set (fst (run lower d calls)) \<inter> set (detected_phrases d) = {} \<and>
     detected_phrases (snd (run lower d calls)) = detected_phrases d @ fst (run lower d calls)"
proof (induction calls arbitrary: d)
  case Nil
  then show ?case by simp
next
  case (Cons c cs)
  obtain out d' where s: "step lower d c = (out, d')" by (cases "step lower d c")
  obtain outs d'' where r: "run lower d' cs = (outs, d'')" by (cases "run lower d' cs")
  from Cons.prems have nr: "c \<noteq> Reset" and nrs: "Reset \<notin> set cs" by auto
  from step_detected [OF nr, where lower = lower and d = d] s have det: "detected_phrases d' = detected_phrases d @ out" by simp
  from step_distinct [where lower = lower and d = d and c = c] s have dout: "distinct out" by simp
  from step_fresh [where lower = lower and d = d and c = c] s have fout: "set out \<inter> set (detected_phrases d) = {}" by simp
  from Cons.IH [OF nrs, where d = d'] r have
    ih: "distinct outs" "set outs \<inter> set (detected_phrases d') = {}"
        "detected_phrases d'' = detected_phrases d' @ outs" by simp_all
  from s r have e: "run lower d (c # cs) = (out @ outs, d'')" by simp
  show ?case unfolding e using det dout fout ih by auto
qed

lemma process_member:
  assumes "transcript_chunk \<noteq> []" "phrase \<in> set (target_phrases d)"
  shows "phrase \<in> set (fst (process_transcript lower d transcript_chunk)) \<longleftrightarrow>
         detect_phrase (combined_text lower (transcript_history (snd (process_transcript lower d transcript_chunk))))
           (lower phrase) \<and> phrase \<notin> set (detected_phrases d)"
proof -
  from assms(2) have ne: "target_phrases d \<noteq> []" by auto
  show ?thesis
    using assms(2) by (simp add: process_transcript_hits [OF assms(1) ne] Let_def set_hits)
qed

lemma count_list_distinct: "distinct xs \<Longrightarrow> count_list xs x \<le> 1"
  by (induction xs) (auto simp: count_list_0_iff)

lemma count_list_one: "distinct xs \<Longrightarrow> x \<in> set xs \<Longrightarrow> count_list xs x = 1"
  by (induction xs) (auto simp: count_list_0_iff)

lemma target_step_distinct:
  assumes "distinct (target_phrases d)"
  shows "distinct (target_phrases (snd (step lower d c)))"
proof (cases c)
  case (Process chunk)
  with assms show ?thesis
    by (cases "chunk = [] \<or> target_phrases d = []")
       (auto simp: process_transcript_skip process_transcript_hits Let_def)
qed (use assms in \<open>auto simp: add_target_phrase_def remove_target_phrase_def reset_def\<close>)

lemma target_run_distinct:
  "distinct (target_phrases d) \<Longrightarrow> distinct (target_phrases (snd (run lower d calls)))"
proof (induction calls arbitrary: d)
  case Nil
  then show ?case by simp
next
  case (Cons c cs)
  obtain out d' where s: "step lower d c = (out, d')" by (cases "step lower d c")
  obtain outs d'' where r: "run lower d' cs = (outs, d'')" by (cases "run lower d' cs")
  from target_step_distinct [OF Cons.prems, where lower = lower and c = c] s have "distinct (target_phrases d')" by simp
  from Cons.IH [OF this] r have "distinct (target_phrases d'')" by simp
  with s r show ?case by simp
qed

section \<open>Facts about the transcript files\<close>

lemma path_join_inject:
  "\<not> starts_with b ''/'' \<Longrightarrow> \<not> starts_with b' ''/'' \<Longrightarrow> path_join a b = path_join a b' \<longleftrightarrow> b = b'"
  by (auto simp: path_join_def)

lemma segment_not_full: "segment_path p clk n \<noteq> full_transcript_path p"
proof -
  have "''segment_'' @ format_03d n @ ''_'' @ stamp_compact clk @ ''.txt'' \<noteq> ''full_transcript.txt''"
    by simp
  then show ?thesis
    by (simp add: segment_path_def full_transcript_path_def path_join_inject)
qed

lemma save_transcript_chunk_ok:
  assumes "writable w (segment_path p clk (transcript_counter p + 1))"
    and "writable w (full_transcript_path p)"
  shows "save_transcript_chunk p w clk chunk =
     (p\<lparr>transcript_counter := transcript_counter p + 1,
        full_transcript := full_transcript p @ [CHR 0x0A] @ ''['' @ stamp_time clk @ ''] '' @ chunk\<rparr>,
      w\<lparr>files := (files w)
          (segment_path p clk (transcript_counter p + 1) \<mapsto>
             segment_record p clk (transcript_counter p + 1) chunk,
           full_transcript_path p \<mapsto>
             full_transcript_record p clk (transcript_counter p + 1)
               (full_transcript p @ [CHR 0x0A] @ ''['' @ stamp_time clk @ ''] '' @ chunk))\<rparr>)"
  using assms
  by (simp add: save_transcript_chunk_def Let_def write_file_def segment_path_def
      segment_record_def full_transcript_path_def full_transcript_record_def)


lemma strip_empty_arg: "strip [] = []"
  by (simp add: strip_def)

lemma cycle_skipped:
  assumes "current_time - last_extraction_time p \<ge> 30" and "audio_file = Some a" and "a \<noteq> []"
    and "process_audio_chunk_direct transcription = None"
  shows "cycle p w clk current_time audio_file transcription =
           (p\<lparr>last_extraction_time := current_time\<rparr>, w)"
  using assms by (simp add: cycle_def)

lemma cycle_saved:
  assumes "current_time - last_extraction_time p \<ge> 30" and "audio_file = Some a" and "a \<noteq> []"
    and "process_audio_chunk_direct transcription = Some chunk"
  shows "cycle p w clk current_time audio_file transcription =
           ((fst (save_transcript_chunk p w clk chunk))\<lparr>last_extraction_time := current_time\<rparr>,
            snd (save_transcript_chunk p w clk chunk))"
proof -
  from assms(4) have "chunk \<noteq> []"
    by (auto simp: process_audio_chunk_direct_def split: outcome.splits option.splits if_splits)
  with assms show ?thesis by (simp add: cycle_def split_beta)
qed

section \<open>Facts about the chain and the throttle\<close>

lemma setup_with_raised: "fst (body s) = Raised \<Longrightarrow> setup_with body s = (False, snd (body s))"
  by (simp add: setup_with_def split_beta)

lemma setup_with_returned: "fst (body s) = Returned b \<Longrightarrow> setup_with body s = (b, snd (body s))"
  by (simp add: setup_with_def split_beta)

lemma capture_interval_kept:
  "min_capture_interval (snd (capture_screenshot c t throttle saved)) = min_capture_interval c"
  by (simp add: capture_screenshot_def)

lemma capture_after_last:
  assumes "0 \<le> min_capture_interval c" and "j < length reqs" and "fst (capture_all c reqs ! j)"
  shows "min_capture_interval c \<le> fst (reqs ! j) - last_capture_time c"
  using assms
proof (induction reqs arbitrary: c j)
  case Nil
  then show ?case by simp
next
  case (Cons r rest)
  obtain t saved where r: "r = (t, saved)" by (cases r)
  let ?c' = "snd (capture_screenshot c t True saved)"
  show ?case
  proof (cases j)
    case 0
    with Cons.prems r show ?thesis by (simp add: proceeds_def)
  next
    case (Suc k)
    with Cons.prems r have k: "k < length rest" and p: "fst (capture_all ?c' rest ! k)" by simp_all
    from Cons.prems(1) have m: "0 \<le> min_capture_interval ?c'" by (simp add: capture_interval_kept)
    from Cons.IH [OF m k p]
    have ih: "min_capture_interval c \<le> fst (rest ! k) - last_capture_time ?c'"
      by (simp add: capture_interval_kept)
    have "last_capture_time c \<le> last_capture_time ?c'"
      using Cons.prems(1) by (auto simp: capture_screenshot_def)
    with ih Suc r show ?thesis by simp
  qed
qed

lemma captures_apart:
  assumes "0 \<le> min_capture_interval c" and "i < j" and "j < length reqs"
    and "fst (capture_all c reqs ! i)" and "fst (capture_all c reqs ! j)"
  shows "min_capture_interval c \<le> fst (reqs ! j) - fst (reqs ! i)"
  using assms
proof (induction reqs arbitrary: c i j)
  case Nil
  then show ?case by simp
next
  case (Cons r rest)
  obtain t saved where r: "r = (t, saved)" by (cases r)
  let ?c' = "snd (capture_screenshot c t True saved)"
  from Cons.prems(2) obtain k where j: "j = Suc k" by (cases j) auto
  with Cons.prems r have k: "k < length rest" and pk: "fst (capture_all ?c' rest ! k)" by simp_all
  from Cons.prems(1) have m: "0 \<le> min_capture_interval ?c'" by (simp add: capture_interval_kept)
  show ?case
  proof (cases i)
    case 0
    with Cons.prems(4) r have "proceeds c t True" by simp
    then have l: "last_capture_time ?c' = t" by (simp add: proceeds_def capture_screenshot_def)
    from capture_after_last [OF m k pk] l
    have "min_capture_interval c \<le> fst (rest ! k) - t" by (simp add: capture_interval_kept)
    with 0 j r show ?thesis by simp
  next
    case (Suc h)
    with Cons.prems j r have hk: "h < k" and ph: "fst (capture_all ?c' rest ! h)" by simp_all
    from Cons.IH [OF m hk k ph pk] Suc j show ?thesis by (simp add: capture_interval_kept)
  qed
qed

section \<open>The matching rules\<close>

text \<open>
  Claim C1, as the code has it, for whatever function \<open>lower\<close> the interpreter's
  \<open>str.lower()\<close> is. A target phrase of at most two words (counted on the
  lower-cased phrase) that has not fired yet is returned by \<open>process_transcript\<close> on a
  non-empty chunk exactly when the lower-cased phrase occurs in the joined lower-case text
  of the window as a substring, or every word of the lower-cased phrase is one of the
  words of that text, in whatever order. The substring rule is tried first and is what
  the claim leaves out.
\<close>

theorem short_phrase_fires:
  assumes "transcript_chunk \<noteq> []"
    and "phrase \<in> set (target_phrases d)"
    and "phrase \<notin> set (detected_phrases d)"
    and "length (split (lower phrase)) \<le> 2"
  shows "phrase \<in> set (fst (process_transcript lower d transcript_chunk)) \<longleftrightarrow>
         str_contains (combined_text lower (transcript_history (snd (process_transcript lower d transcript_chunk))))
           (lower phrase) \<or>
         all_words_present
           (split (combined_text lower (transcript_history (snd (process_transcript lower d transcript_chunk)))))
           (split (lower phrase))"
  using assms(3,4) by (simp add: process_member [OF assms(1,2)] detect_phrase_def)

text \<open>The phrase "morning good" fires on the window text "good morning everyone", and
  the phrase "monde bonjour" on "bonjour" and "monde" with a no-break space between.\<close>

theorem short_phrase_fires_witness:
  "''good morning everyone'' \<noteq> [] \<and>
   ''morning good'' \<in> set (target_phrases (init_detector [''morning good''] 5)) \<and>
   ''morning good'' \<notin> set (detected_phrases (init_detector [''morning good''] 5)) \<and>
   length (split (lower_ascii ''morning good'')) \<le> 2 \<and>
   \<not> str_contains (combined_text lower_ascii [''good morning everyone'']) (lower_ascii ''morning good'') \<and>
   all_words_present (split (combined_text lower_ascii [''good morning everyone''])) (split (lower_ascii ''morning good'')) \<and>
   ''morning good'' \<in> set (fst (process_transcript lower_ascii (init_detector [''morning good''] 5) ''good morning everyone'')) \<and>
   split (''bonjour'' @ nbsp @ ''monde'') = [''bonjour'', ''monde''] \<and>
   ''bonjour'' @ nbsp @ ''monde'' \<noteq> [] \<and>
   ''monde bonjour'' \<in> set (target_phrases (init_detector [''monde bonjour''] 5)) \<and>
   ''monde bonjour'' \<notin> set (detected_phrases (init_detector [''monde bonjour''] 5)) \<and>
   length (split (lower_ascii ''monde bonjour'')) \<le> 2 \<and>
   all_words_present (split (combined_text lower_ascii [''bonjour'' @ nbsp @ ''monde'']))
     (split (lower_ascii ''monde bonjour'')) \<and>
   ''monde bonjour'' \<in> set (fst (process_transcript lower_ascii (init_detector [''monde bonjour''] 5)
       (''bonjour'' @ nbsp @ ''monde'')))"
  using short_phrase_fires [where lower = lower_ascii and transcript_chunk = "''good morning everyone''"
      and phrase = "''morning good''" and d = "init_detector [''morning good''] 5"]
    short_phrase_fires [where lower = lower_ascii and transcript_chunk = "''bonjour'' @ nbsp @ ''monde''"
      and phrase = "''monde bonjour''" and d = "init_detector [''monde bonjour''] 5"]
  by code_simp

text \<open>
  Claim C1 as stated fails: the one-word phrase "morn" fires on the window text
  "good morning", where it is a substring, although "morn" is not a word of the window.
\<close>

theorem short_phrase_counterexample:
  "length (split (lower_ascii ''morn'')) \<le> 2 \<and>
   ''morn'' \<in> set (fst (process_transcript lower_ascii (init_detector [''morn''] 5) ''good morning'')) \<and>
   transcript_history (snd (process_transcript lower_ascii (init_detector [''morn''] 5) ''good morning'')) = [''good morning''] \<and>
   \<not> all_words_present (split (combined_text lower_ascii [''good morning''])) (split (lower_ascii ''morn''))"
  by code_simp

text \<open>
  Claim C2. A phrase of at least three words that is not a substring of the text matches
  exactly when the number of its words found among the words of the text, divided by the
  number of its words, is at least 0.75, that is when \<open>3 * total \<le> 4 * matched\<close>.
  With four words, three found match and two found do not.
\<close>

theorem long_phrase_ratio:
  assumes "length (split phrase) \<ge> 3" and "\<not> str_contains text phrase"
  shows "(detect_phrase text phrase \<longleftrightarrow>
            (of_nat (matches (split text) (split phrase)) :: rat) / of_nat (length (split phrase)) \<ge> 3 / 4) \<and>
         (detect_phrase text phrase \<longleftrightarrow> 3 * length (split phrase) \<le> 4 * matches (split text) (split phrase)) \<and>
         (length (split phrase) = 4 \<and> matches (split text) (split phrase) = 3 \<longrightarrow> detect_phrase text phrase) \<and>
         (length (split phrase) = 4 \<and> matches (split text) (split phrase) = 2 \<longrightarrow> \<not> detect_phrase text phrase)"
proof -
  let ?m = "matches (split text) (split phrase)" and ?n = "length (split phrase)"
  from assms have d: "detect_phrase text phrase \<longleftrightarrow> (of_nat ?m :: rat) / of_nat ?n \<ge> 3 / 4"
    by (simp add: detect_phrase_def match_threshold_def Let_def)
  from assms(1) have "0 < ?n" by linarith
  then have pos: "(0::rat) < of_nat ?n" by (simp only: of_nat_0_less_iff)
  have "((of_nat ?m :: rat) / of_nat ?n \<ge> 3 / 4) \<longleftrightarrow> (3 * of_nat ?n \<le> 4 * (of_nat ?m :: rat))"
    using pos by (simp add: field_simps)
  also have "\<dots> \<longleftrightarrow> (of_nat (3 * ?n) \<le> (of_nat (4 * ?m) :: rat))" by simp
  also have "\<dots> \<longleftrightarrow> 3 * ?n \<le> 4 * ?m" by (simp only: of_nat_le_iff)
  finally have i: "((of_nat ?m :: rat) / of_nat ?n \<ge> 3 / 4) \<longleftrightarrow> 3 * ?n \<le> 4 * ?m" .
  show ?thesis using d i by auto
qed

text \<open>The phrase "artificial intelligence is transforming" with three, then two, of its
  words in the text; and the phrase "un deux trois quatre" on a text that has "un" and
  "deux" with a no-break space between, then "trois".\<close>

theorem long_phrase_ratio_witness:
  "length (split ''artificial intelligence is transforming'') \<ge> 3 \<and>
   \<not> str_contains ''artificial intelligence transforming'' ''artificial intelligence is transforming'' \<and>
   matches (split ''artificial intelligence transforming'') (split ''artificial intelligence is transforming'') = 3 \<and>
   detect_phrase ''artificial intelligence transforming'' ''artificial intelligence is transforming'' \<and>
   \<not> str_contains ''artificial news transforming'' ''artificial intelligence is transforming'' \<and>
   matches (split ''artificial news transforming'') (split ''artificial intelligence is transforming'') = 2 \<and>
   \<not> detect_phrase ''artificial news transforming'' ''artificial intelligence is transforming'' \<and>
   length (split ''un deux trois quatre'') \<ge> 3 \<and>
   \<not> str_contains (''un'' @ nbsp @ ''deux trois'') ''un deux trois quatre'' \<and>
   matches (split (''un'' @ nbsp @ ''deux trois'')) (split ''un deux trois quatre'') = 3 \<and>
   detect_phrase (''un'' @ nbsp @ ''deux trois'') ''un deux trois quatre''"
  using long_phrase_ratio [of "''artificial intelligence is transforming''" "''artificial intelligence transforming''"]
        long_phrase_ratio [of "''artificial intelligence is transforming''" "''artificial news transforming''"]
        long_phrase_ratio [of "''un deux trois quatre''" "''un'' @ nbsp @ ''deux trois''"]
  by code_simp

section \<open>Firing, reset and the target list\<close>

text \<open>
  Claim C3, for whatever function \<open>lower\<close> the interpreter's \<open>str.lower()\<close> is. In a run
  of calls on the detector that has no \<open>reset\<close>, whatever phrases
  are added or removed on the way, every phrase is returned by \<open>process_transcript\<close> at
  most once in total, and a phrase that has fired is never returned again. Feeding a
  chunk on which an unfired target phrase matches twice in a row returns the phrase the
  first time, not the second, and so exactly once.
\<close>

theorem fires_at_most_once:
  assumes "Reset \<notin> set calls"
  shows "count_list (fst (run lower d calls)) phrase \<le> 1 \<and>
         (phrase \<in> set (detected_phrases d) \<longrightarrow> phrase \<notin> set (fst (run lower d calls))) \<and>
         (chunk \<noteq> [] \<and> phrase \<in> set (target_phrases d) \<and> phrase \<notin> set (detected_phrases d) \<and>
          detect_phrase (combined_text lower (deque_append (context_window d) (transcript_history d) chunk))
            (lower phrase) \<longrightarrow>
          phrase \<in> set (fst (process_transcript lower d chunk)) \<and>
          phrase \<notin> set (fst (process_transcript lower (snd (process_transcript lower d chunk)) chunk)) \<and>
          count_list (fst (run lower d [Process chunk, Process chunk])) phrase = 1)"
proof (intro conjI impI)
  from run_events [OF assms, where lower = lower and d = d]
  have dist: "distinct (fst (run lower d calls))"
    and fresh: "set (fst (run lower d calls)) \<inter> set (detected_phrases d) = {}" by simp_all
  from dist show "count_list (fst (run lower d calls)) phrase \<le> 1" by (rule count_list_distinct)
  show "phrase \<notin> set (fst (run lower d calls))" if "phrase \<in> set (detected_phrases d)"
    using that fresh by auto
next
  assume a: "chunk \<noteq> [] \<and> phrase \<in> set (target_phrases d) \<and> phrase \<notin> set (detected_phrases d) \<and>
          detect_phrase (combined_text lower (deque_append (context_window d) (transcript_history d) chunk))
            (lower phrase)"
  then have ne: "chunk \<noteq> []" "target_phrases d \<noteq> []" by auto
  let ?d1 = "snd (process_transcript lower d chunk)"
  from a show first: "phrase \<in> set (fst (process_transcript lower d chunk))"
    by (simp add: process_transcript_hits [OF ne] Let_def set_hits)
  then have "phrase \<in> set (detected_phrases ?d1)" by (simp add: process_detected)
  with process_fresh [where lower = lower and d = ?d1 and c = chunk]
  show second: "phrase \<notin> set (fst (process_transcript lower ?d1 chunk))" by auto
  have two: "Reset \<notin> set [Process chunk, Process chunk]" by simp
  have e: "fst (run lower d [Process chunk, Process chunk]) =
        fst (process_transcript lower d chunk) @ fst (process_transcript lower ?d1 chunk)"
    by (simp add: split_beta)
  from run_events [OF two, where lower = lower and d = d] have "distinct (fst (run lower d [Process chunk, Process chunk]))" by simp
  moreover from first e have "phrase \<in> set (fst (run lower d [Process chunk, Process chunk]))" by simp
  ultimately show "count_list (fst (run lower d [Process chunk, Process chunk])) phrase = 1"
    by (rule count_list_one)
qed

text \<open>
  A run on the target "breaking news", with the phrase "today" added on the way.
\<close>

theorem fires_at_most_once_witness:
  "Reset \<notin> set [Process ''breaking news'', Add ''today'', Process ''breaking news'', Process ''news today''] \<and>
   fst (run lower_ascii (init_detector [''breaking news''] 5)
          [Process ''breaking news'', Add ''today'', Process ''breaking news'', Process ''news today''])
     = [''breaking news'', ''today''] \<and>
   count_list (fst (run lower_ascii (init_detector [''breaking news''] 5)
          [Process ''breaking news'', Add ''today'', Process ''breaking news'', Process ''news today'']))
      ''breaking news'' \<le> 1 \<and>
   ''breaking news'' \<noteq> [] \<and>
   ''breaking news'' \<in> set (target_phrases (init_detector [''breaking news''] 5)) \<and>
   ''breaking news'' \<notin> set (detected_phrases (init_detector [''breaking news''] 5)) \<and>
   detect_phrase (combined_text lower_ascii (deque_append 5 [] ''breaking news'')) (lower_ascii ''breaking news'') \<and>
   count_list (fst (run lower_ascii (init_detector [''breaking news''] 5)
          [Process ''breaking news'', Process ''breaking news''])) ''breaking news'' = 1"
  using fires_at_most_once [where lower = lower_ascii
      and calls = "[Process ''breaking news'', Add ''today'', Process ''breaking news'', Process ''news today'']"
      and d = "init_detector [''breaking news''] 5" and phrase = "''breaking news''"
      and chunk = "''breaking news''"]
  by code_simp

text \<open>
  Claim C8. With no target phrase, \<open>process_transcript\<close> returns no detection and the
  detector as it was: the chunk does not enter the window, so a phrase added afterwards
  is matched as if the chunk had never been seen.
\<close>

theorem empty_targets_unchanged:
  assumes "target_phrases d = []"
  shows "process_transcript lower d transcript_chunk = ([], d) \<and>
         transcript_history (snd (process_transcript lower d transcript_chunk)) = transcript_history d \<and>
         process_transcript lower (add_target_phrase (snd (process_transcript lower d transcript_chunk)) phrase) later
           = process_transcript lower (add_target_phrase d phrase) later"
  using assms by (simp add: process_transcript_skip)

text \<open>
  The chunk "good morning" seen with no target does not help the phrase
  "good everyone", added later, to match on "everyone"; seen with a target, it does.
\<close>

theorem empty_targets_unchanged_witness:
  "target_phrases (init_detector [] 5) = [] \<and>
   process_transcript lower_ascii (init_detector [] 5) ''good morning'' = ([], init_detector [] 5) \<and>
   fst (process_transcript lower_ascii
          (add_target_phrase (snd (process_transcript lower_ascii (init_detector [] 5) ''good morning'')) ''good everyone'')
          ''everyone'') = [] \<and>
   fst (process_transcript lower_ascii
          (add_target_phrase (snd (process_transcript lower_ascii (init_detector [''x''] 5) ''good morning'')) ''good everyone'')
          ''everyone'') = [''good everyone'']"
  using empty_targets_unchanged [where lower = lower_ascii and d = "init_detector [] 5"
      and transcript_chunk = "''good morning''" and phrase = "''good everyone''" and later = "''everyone''"]
  by code_simp

text \<open>
  Claim C9. \<open>reset\<close> empties the window and the list of fired phrases and keeps the
  targets and the window size; a target phrase, fired before or not, is returned again by
  the first call after \<open>reset\<close> whose chunk it matches.
\<close>

theorem reset_rearms:
  "transcript_history (reset d) = [] \<and> detected_phrases (reset d) = [] \<and>
   target_phrases (reset d) = target_phrases d \<and> context_window (reset d) = context_window d \<and>
   (transcript_chunk \<noteq> [] \<and> phrase \<in> set (target_phrases d) \<and>
    detect_phrase (combined_text lower (deque_append (context_window d) [] transcript_chunk)) (lower phrase)
    \<longrightarrow> phrase \<in> set (fst (process_transcript lower (reset d) transcript_chunk)))"
proof -
  have "phrase \<in> set (fst (process_transcript lower (reset d) transcript_chunk))"
    if a: "transcript_chunk \<noteq> []" "phrase \<in> set (target_phrases d)"
      "detect_phrase (combined_text lower (deque_append (context_window d) [] transcript_chunk)) (lower phrase)"
  proof -
    from a(2) have ne: "target_phrases (reset d) \<noteq> []" by (auto simp: reset_def)
    show ?thesis using a(2,3)
      by (simp add: process_transcript_hits [OF a(1) ne] Let_def set_hits) (simp add: reset_def)
  qed
  then show ?thesis by (simp add: reset_def)
qed

text \<open>
  The phrase "good morning" fires, stays silent on the same chunk, and fires again
  after \<open>reset\<close>.
\<close>

theorem reset_rearms_witness:
  "''good morning'' \<in> set (detected_phrases (snd (process_transcript lower_ascii (init_detector [''good morning''] 5) ''good morning''))) \<and>
   fst (process_transcript lower_ascii (snd (process_transcript lower_ascii (init_detector [''good morning''] 5) ''good morning'')) ''good morning'') = [] \<and>
   ''good morning'' \<noteq> [] \<and>
   ''good morning'' \<in> set (target_phrases (snd (process_transcript lower_ascii (init_detector [''good morning''] 5) ''good morning''))) \<and>
   detect_phrase (combined_text lower_ascii (deque_append 5 [] ''good morning'')) (lower_ascii ''good morning'') \<and>
   fst (process_transcript lower_ascii (reset (snd (process_transcript lower_ascii (init_detector [''good morning''] 5) ''good morning''))) ''good morning'')
     = [''good morning''] \<and>
   fst (run lower_ascii (init_detector [''good morning''] 5)
          [Process ''good morning'', Process ''good morning'', Reset, Process ''good morning''])
     = [''good morning'', ''good morning'']"
  using reset_rearms [where lower = lower_ascii
      and d = "snd (process_transcript lower_ascii (init_detector [''good morning''] 5) ''good morning'')"
      and transcript_chunk = "''good morning''" and phrase = "''good morning''"]
  by code_simp

text \<open>
  Claim C10. \<open>add_target_phrase\<close> with the empty phrase or with a phrase of the list
  leaves the detector as it is, it is idempotent, and it keeps a duplicate-free list
  duplicate-free, as does every run of calls on the detector.
\<close>

theorem add_target_phrase_unique:
  "(phrase = [] \<or> phrase \<in> set (target_phrases d) \<longrightarrow> add_target_phrase d phrase = d) \<and>
   add_target_phrase (add_target_phrase d phrase) phrase = add_target_phrase d phrase \<and>
   (distinct (target_phrases d) \<longrightarrow> distinct (target_phrases (add_target_phrase d phrase))) \<and>
   (distinct (target_phrases d) \<longrightarrow> distinct (target_phrases (snd (run lower d calls))))"
  using target_run_distinct [where lower = lower and d = d and calls = calls] by (auto simp: add_target_phrase_def)

text \<open>
  Adding "a" or the empty phrase to the targets "a", "b" changes nothing; a run of
  additions and removals leaves no duplicate.
\<close>

theorem add_target_phrase_unique_witness:
  "''a'' \<in> set (target_phrases (init_detector [''a'', ''b''] 5)) \<and>
   add_target_phrase (init_detector [''a'', ''b''] 5) ''a'' = init_detector [''a'', ''b''] 5 \<and>
   add_target_phrase (init_detector [''a'', ''b''] 5) [] = init_detector [''a'', ''b''] 5 \<and>
   target_phrases (add_target_phrase (init_detector [''a'', ''b''] 5) ''c'') = [''a'', ''b'', ''c''] \<and>
   distinct (target_phrases (init_detector [''a'', ''b''] 5)) \<and>
   target_phrases (snd (run lower_ascii (init_detector [''a'', ''b''] 5) [Add ''c'', Add ''a'', Remove ''b'', Add ''c'', Add ''b'']))
     = [''a'', ''c'', ''b'']"
  using add_target_phrase_unique [where lower = lower_ascii and phrase = "''a''"
          and d = "init_detector [''a'', ''b''] 5"
          and calls = "[Add ''c'', Add ''a'', Remove ''b'', Add ''c'', Add ''b'']"]
  by code_simp

section \<open>Persistence of the transcript\<close>

text \<open>
  Claim C4, as the code has it. In a cycle that is due and got an audio file, a chunk is
  persisted exactly when its text is not empty after \<open>strip\<close>: then, the two files being
  writable, the counter goes up by one, the segment record is written under its own path
  and the cumulative transcript, with the new line appended, is written anew, each line
  with the time the clock showed when it was made. When the
  transcriber raises, returns \<open>None\<close>, or returns a text that is empty or white space,
  the cycle writes nothing and changes only \<open>last_extraction_time\<close>.
\<close>

theorem nonempty_chunk_persisted:
  assumes "current_time - last_extraction_time p \<ge> 30"
    and "audio_file = Some a" and "a \<noteq> []"
  shows "(transcription = Raised \<or> transcription = Returned None \<or>
          (\<exists>t. transcription = Returned (Some t) \<and> strip t = []) \<longrightarrow>
            cycle p w clk current_time audio_file transcription =
              (p\<lparr>last_extraction_time := current_time\<rparr>, w)) \<and>
         (transcription = Returned (Some transcript) \<and> strip transcript \<noteq> [] \<and>
          writable w (segment_path p clk (transcript_counter p + 1)) \<and>
          writable w (full_transcript_path p) \<longrightarrow>
            transcript_counter (fst (cycle p w clk current_time audio_file transcription))
              = transcript_counter p + 1 \<and>
            full_transcript (fst (cycle p w clk current_time audio_file transcription))
              = full_transcript p @ [CHR 0x0A] @ ''['' @ stamp_time clk @ ''] '' @ strip transcript \<and>
            files (snd (cycle p w clk current_time audio_file transcription))
                (segment_path p clk (transcript_counter p + 1))
              = Some (segment_record p clk (transcript_counter p + 1) (strip transcript)) \<and>
            files (snd (cycle p w clk current_time audio_file transcription)) (full_transcript_path p)
              = Some (full_transcript_record p clk (transcript_counter p + 1)
                   (full_transcript p @ [CHR 0x0A] @ ''['' @ stamp_time clk @ ''] '' @ strip transcript)))"
proof (intro conjI impI)
  assume "transcription = Raised \<or> transcription = Returned None \<or>
          (\<exists>t. transcription = Returned (Some t) \<and> strip t = [])"
  then have "process_audio_chunk_direct transcription = None"
    by (auto simp: process_audio_chunk_direct_def)
  from cycle_skipped [OF assms this]
  show "cycle p w clk current_time audio_file transcription =
              (p\<lparr>last_extraction_time := current_time\<rparr>, w)" .
next
  assume a: "transcription = Returned (Some transcript) \<and> strip transcript \<noteq> [] \<and>
          writable w (segment_path p clk (transcript_counter p + 1)) \<and>
          writable w (full_transcript_path p)"
  then have ne: "transcript \<noteq> []" by (auto simp: strip_empty_arg)
  with a have "process_audio_chunk_direct transcription = Some (strip transcript)"
    by (simp add: process_audio_chunk_direct_def)
  from cycle_saved [OF assms this]
  have c: "cycle p w clk current_time audio_file transcription =
     ((fst (save_transcript_chunk p w clk (strip transcript)))\<lparr>last_extraction_time := current_time\<rparr>,
      snd (save_transcript_chunk p w clk (strip transcript)))" .
  from a have w1: "writable w (segment_path p clk (transcript_counter p + 1))"
    and w2: "writable w (full_transcript_path p)" by simp_all
  note s = save_transcript_chunk_ok [OF w1 w2, of "strip transcript"]
  show "transcript_counter (fst (cycle p w clk current_time audio_file transcription))
              = transcript_counter p + 1"
    by (simp add: c s)
  show "full_transcript (fst (cycle p w clk current_time audio_file transcription))
              = full_transcript p @ [CHR 0x0A] @ ''['' @ stamp_time clk @ ''] '' @ strip transcript"
    by (simp add: c s)
  show "files (snd (cycle p w clk current_time audio_file transcription))
                (segment_path p clk (transcript_counter p + 1))
              = Some (segment_record p clk (transcript_counter p + 1) (strip transcript))"
    using segment_not_full [of p clk "transcript_counter p + 1"] by (simp add: c s)
  show "files (snd (cycle p w clk current_time audio_file transcription)) (full_transcript_path p)
              = Some (full_transcript_record p clk (transcript_counter p + 1)
                   (full_transcript p @ [CHR 0x0A] @ ''['' @ stamp_time clk @ ''] '' @ strip transcript))"
    by (simp add: c s)
qed

text \<open>
  The text "  hello world " is persisted as segment 1; the text of two blanks is not,
  nor is the text of a no-break space and an em space.
\<close>

theorem nonempty_chunk_persisted_witness:
  "(100::real) - last_extraction_time demo_processor \<ge> 30 \<and>
   ''chunk.wav'' \<noteq> [] \<and>
   strip ''  hello world '' = ''hello world'' \<and>
   writable demo_world (segment_path demo_processor demo_clock (transcript_counter demo_processor + 1)) \<and>
   writable demo_world (full_transcript_path demo_processor) \<and>
   transcript_counter (fst (cycle demo_processor demo_world demo_clock 100 (Some ''chunk.wav'')
       (Returned (Some ''  hello world '')))) = transcript_counter demo_processor + 1 \<and>
   files (snd (cycle demo_processor demo_world demo_clock 100 (Some ''chunk.wav'')
       (Returned (Some ''  hello world ''))))
     (segment_path demo_processor demo_clock (transcript_counter demo_processor + 1))
     = Some (segment_record demo_processor demo_clock (transcript_counter demo_processor + 1)
         (strip ''  hello world '')) \<and>
   segment_path demo_processor demo_clock (transcript_counter demo_processor + 1)
     = ''output/transcripts/segment_001_20240101_120000.txt'' \<and>
   strip ''  '' = [] \<and>
   cycle demo_processor demo_world demo_clock 100 (Some ''chunk.wav'') (Returned (Some ''  ''))
     = (demo_processor\<lparr>last_extraction_time := 100\<rparr>, demo_world) \<and>
   strip (nbsp @ em_space) = [] \<and>
   cycle demo_processor demo_world demo_clock 100 (Some ''chunk.wav'')
       (Returned (Some (nbsp @ em_space)))
     = (demo_processor\<lparr>last_extraction_time := 100\<rparr>, demo_world) \<and>
   strip (nbsp @ ''hello world'' @ em_space) = ''hello world''"
proof -
  have due: "(100::real) - last_extraction_time demo_processor \<ge> 30"
    by (simp add: demo_processor_def init_processor_def)
  have ne: "''chunk.wav'' \<noteq> []" by simp
  have s: "strip ''  hello world '' = ''hello world''" by code_simp
  have b: "strip ''  '' = []" by code_simp
  have u: "strip (nbsp @ em_space) = []" by code_simp
  have v: "strip (nbsp @ ''hello world'' @ em_space) = ''hello world''" by code_simp
  have w1: "writable demo_world (segment_path demo_processor demo_clock (transcript_counter demo_processor + 1))"
    and w2: "writable demo_world (full_transcript_path demo_processor)"
    by (simp_all add: demo_world_def)
  have path: "segment_path demo_processor demo_clock (transcript_counter demo_processor + 1)
     = ''output/transcripts/segment_001_20240101_120000.txt''" by code_simp
  note saved = nonempty_chunk_persisted [OF due refl ne, of "Returned (Some ''  hello world '')"
      demo_world demo_clock "''  hello world ''", THEN conjunct2, THEN mp]
  note skipped = nonempty_chunk_persisted [OF due refl ne, of "Returned (Some ''  '')"
      demo_world demo_clock, THEN conjunct1, THEN mp]
  note skipped' = nonempty_chunk_persisted [OF due refl ne, of "Returned (Some (nbsp @ em_space))"
      demo_world demo_clock, THEN conjunct1, THEN mp]
  from s have "strip ''  hello world '' \<noteq> []" by simp
  with w1 w2 have pre: "Returned (Some ''  hello world '') = Returned (Some ''  hello world '') \<and>
      strip ''  hello world '' \<noteq> [] \<and>
      writable demo_world (segment_path demo_processor demo_clock (transcript_counter demo_processor + 1)) \<and>
      writable demo_world (full_transcript_path demo_processor)" by blast
  from b have pre': "Returned (Some ''  '') = Raised \<or> Returned (Some ''  '') = Returned None \<or>
      (\<exists>t. Returned (Some ''  '') = Returned (Some t) \<and> strip t = [])" by blast
  from u have pre'': "Returned (Some (nbsp @ em_space)) = Raised \<or>
      Returned (Some (nbsp @ em_space)) = Returned None \<or>
      (\<exists>t. Returned (Some (nbsp @ em_space)) = Returned (Some t) \<and> strip t = [])" by blast
  from saved [OF pre] skipped [OF pre'] skipped' [OF pre''] due ne s b u v w1 w2 path
  show ?thesis by blast
qed

text \<open>
  Claim C5, as the code has it. \<open>_save_final_transcript\<close> called again on its own result,
  with the same reading of the clock, leaves the file system as the first call left it.
  With an empty running transcript it returns with the file system untouched; with a
  non-empty one and a writable path the summary file holds the summary record. No other
  file is touched.
\<close>

theorem save_final_transcript_repeatable:
  "save_final_transcript p (save_final_transcript p w clk) clk = save_final_transcript p w clk \<and>
   (full_transcript p = [] \<longrightarrow> save_final_transcript p w clk = w) \<and>
   (full_transcript p \<noteq> [] \<and> writable w (final_path p) \<longrightarrow>
      files (save_final_transcript p w clk) (final_path p) = Some (final_record p clk)) \<and>
   (\<forall>path. path \<noteq> final_path p \<longrightarrow> files (save_final_transcript p w clk) path = files w path)"
  by (simp add: save_final_transcript_def write_file_def)

text \<open>
  The summary after one recorded chunk.
\<close>

theorem save_final_transcript_repeatable_witness:
  "full_transcript demo_processor_1 \<noteq> [] \<and>
   writable demo_world (final_path demo_processor_1) \<and>
   save_final_transcript demo_processor_1
       (save_final_transcript demo_processor_1 demo_world demo_clock) demo_clock
     = save_final_transcript demo_processor_1 demo_world demo_clock \<and>
   files (save_final_transcript demo_processor_1 demo_world demo_clock) (final_path demo_processor_1)
     = Some (final_record demo_processor_1 demo_clock) \<and>
   final_path demo_processor_1 = ''output/final_transcript.txt''"
proof -
  have f: "full_transcript demo_processor_1 \<noteq> []" by code_simp
  have w: "writable demo_world (final_path demo_processor_1)" by (simp add: demo_world_def)
  have path: "final_path demo_processor_1 = ''output/final_transcript.txt''" by code_simp
  from save_final_transcript_repeatable [of demo_processor_1 demo_world demo_clock] f w path
  show ?thesis by blast
qed

text \<open>
  Claim C4 as stated fails: a cycle whose transcription is the empty text writes no file
  and leaves the counter at 0 and the running transcript empty.
\<close>

theorem empty_chunk_counterexample:
  "(100::real) - last_extraction_time demo_processor \<ge> 30 \<and>
   transcript_counter (fst (cycle demo_processor demo_world demo_clock 100 (Some ''chunk.wav'')
       (Returned (Some '''')))) = 0 \<and>
   full_transcript (fst (cycle demo_processor demo_world demo_clock 100 (Some ''chunk.wav'')
       (Returned (Some '''')))) = [] \<and>
   files (snd (cycle demo_processor demo_world demo_clock 100 (Some ''chunk.wav'')
       (Returned (Some '''')))) = Map.empty"
  by (simp add: cycle_def demo_processor_def demo_world_def init_processor_def
      process_audio_chunk_direct_def)

text \<open>
  Claim C5 as stated fails: with no chunk recorded, \<open>_save_final_transcript\<close> writes no
  file at all; and two calls on the same processor that read the clock one second apart
  write different summaries, since the summary carries the date.
\<close>

theorem save_final_transcript_counterexample:
  "transcript_counter demo_processor = 0 \<and> full_transcript demo_processor = [] \<and>
   files (save_final_transcript demo_processor demo_world demo_clock) = Map.empty \<and>
   files (save_final_transcript demo_processor_1 demo_world demo_clock) ''output/final_transcript.txt''
     \<noteq> files (save_final_transcript demo_processor_1 demo_world demo_clock_later)
         ''output/final_transcript.txt''"
proof -
  have "files (save_final_transcript demo_processor demo_world demo_clock) = Map.empty"
    by (simp add: save_final_transcript_def demo_processor_def demo_world_def init_processor_def)
  moreover have "files (save_final_transcript demo_processor_1 demo_world demo_clock)
       ''output/final_transcript.txt''
     \<noteq> files (save_final_transcript demo_processor_1 demo_world demo_clock_later)
         ''output/final_transcript.txt''"
    by code_simp
  ultimately show ?thesis by (simp add: demo_processor_def init_processor_def)
qed

section \<open>The strategy chain and the capture throttle\<close>

text \<open>
  Claim C6. \<open>setup\<close> calls the strategies in the order yt-dlp, streamlink, direct
  extraction. The first one that returns true is recorded in \<open>successful_strategy\<close>,
  \<open>setup\<close> returns true, and no later strategy is called; when all three fail it returns
  false. A strategy that raises counts as failed. In particular, when the first raises
  and the second succeeds, the stream is bound to streamlink, the third is never called,
  and the result is the same whatever the third would do.
\<close>

theorem first_success_wins:
  "(fst (setup_with ytdlp s) \<longrightarrow>
      stream_setup ytdlp streamlink direct_extraction s =
        (True, (snd (setup_with ytdlp s))\<lparr>successful_strategy := Some ''yt-dlp''\<rparr>, [YtDlp])) \<and>
   (\<not> fst (setup_with ytdlp s) \<and> fst (setup_with streamlink (snd (setup_with ytdlp s))) \<longrightarrow>
      stream_setup ytdlp streamlink direct_extraction s =
        (True,
         (snd (setup_with streamlink (snd (setup_with ytdlp s))))\<lparr>successful_strategy := Some ''streamlink''\<rparr>,
         [YtDlp, Streamlink])) \<and>
   (\<not> fst (setup_with ytdlp s) \<and> \<not> fst (setup_with streamlink (snd (setup_with ytdlp s))) \<and>
    fst (setup_with direct_extraction (snd (setup_with streamlink (snd (setup_with ytdlp s))))) \<longrightarrow>
      stream_setup ytdlp streamlink direct_extraction s =
        (True,
         (snd (setup_with direct_extraction (snd (setup_with streamlink (snd (setup_with ytdlp s))))))
           \<lparr>successful_strategy := Some ''direct_extraction''\<rparr>,
         [YtDlp, Streamlink, DirectExtraction])) \<and>
   (\<not> fst (setup_with ytdlp s) \<and> \<not> fst (setup_with streamlink (snd (setup_with ytdlp s))) \<and>
    \<not> fst (setup_with direct_extraction (snd (setup_with streamlink (snd (setup_with ytdlp s))))) \<longrightarrow>
      stream_setup ytdlp streamlink direct_extraction s =
        (False,
         snd (setup_with direct_extraction (snd (setup_with streamlink (snd (setup_with ytdlp s))))),
         [YtDlp, Streamlink, DirectExtraction])) \<and>
   (fst (body s) = Raised \<longrightarrow> setup_with body s = (False, snd (body s))) \<and>
   (fst (ytdlp s) = Raised \<and> fst (streamlink (snd (ytdlp s))) = Returned True \<longrightarrow>
      stream_setup ytdlp streamlink direct_extraction s =
        (True, (snd (streamlink (snd (ytdlp s))))\<lparr>successful_strategy := Some ''streamlink''\<rparr>,
         [YtDlp, Streamlink]) \<and>
      stream_setup ytdlp streamlink direct_extraction s = stream_setup ytdlp streamlink other s \<and>
      DirectExtraction \<notin> set (snd (snd (stream_setup ytdlp streamlink direct_extraction s))))"
proof (intro conjI impI)
  show "stream_setup ytdlp streamlink direct_extraction s =
        (True, (snd (setup_with ytdlp s))\<lparr>successful_strategy := Some ''yt-dlp''\<rparr>, [YtDlp])"
    if "fst (setup_with ytdlp s)"
    using that by (simp add: stream_setup_def split_beta)
  show "stream_setup ytdlp streamlink direct_extraction s =
        (True,
         (snd (setup_with streamlink (snd (setup_with ytdlp s))))\<lparr>successful_strategy := Some ''streamlink''\<rparr>,
         [YtDlp, Streamlink])"
    if "\<not> fst (setup_with ytdlp s) \<and> fst (setup_with streamlink (snd (setup_with ytdlp s)))"
    using that by (simp add: stream_setup_def split_beta)
  show "stream_setup ytdlp streamlink direct_extraction s =
        (True,
         (snd (setup_with direct_extraction (snd (setup_with streamlink (snd (setup_with ytdlp s))))))
           \<lparr>successful_strategy := Some ''direct_extraction''\<rparr>,
         [YtDlp, Streamlink, DirectExtraction])"
    if "\<not> fst (setup_with ytdlp s) \<and> \<not> fst (setup_with streamlink (snd (setup_with ytdlp s))) \<and>
    fst (setup_with direct_extraction (snd (setup_with streamlink (snd (setup_with ytdlp s)))))"
    using that by (simp add: stream_setup_def split_beta)
  show "stream_setup ytdlp streamlink direct_extraction s =
        (False,
         snd (setup_with direct_extraction (snd (setup_with streamlink (snd (setup_with ytdlp s))))),
         [YtDlp, Streamlink, DirectExtraction])"
    if "\<not> fst (setup_with ytdlp s) \<and> \<not> fst (setup_with streamlink (snd (setup_with ytdlp s))) \<and>
    \<not> fst (setup_with direct_extraction (snd (setup_with streamlink (snd (setup_with ytdlp s)))))"
    using that by (simp add: stream_setup_def split_beta)
  show "setup_with body s = (False, snd (body s))" if "fst (body s) = Raised"
    using that by (rule setup_with_raised)
next
  assume a: "fst (ytdlp s) = Raised \<and> fst (streamlink (snd (ytdlp s))) = Returned True"
  then have 1: "setup_with ytdlp s = (False, snd (ytdlp s))" by (simp add: setup_with_raised)
  from a have 2: "setup_with streamlink (snd (ytdlp s)) = (True, snd (streamlink (snd (ytdlp s))))"
    by (simp add: setup_with_returned)
  have e: "stream_setup ytdlp streamlink d s =
        (True, (snd (streamlink (snd (ytdlp s))))\<lparr>successful_strategy := Some ''streamlink''\<rparr>,
         [YtDlp, Streamlink])" for d
    by (simp add: stream_setup_def 1 2)
  from e show "stream_setup ytdlp streamlink direct_extraction s =
        (True, (snd (streamlink (snd (ytdlp s))))\<lparr>successful_strategy := Some ''streamlink''\<rparr>,
         [YtDlp, Streamlink])" .
  from e show "stream_setup ytdlp streamlink direct_extraction s = stream_setup ytdlp streamlink other s"
    by simp
  from e show "DirectExtraction \<notin> set (snd (snd (stream_setup ytdlp streamlink direct_extraction s)))"
    by simp
qed

text \<open>
  Three chains: the first strategy raises and the second succeeds; all three fail; the
  first succeeds.
\<close>

theorem first_success_wins_witness:
  "fst (demo_raises demo_stream) = Raised \<and>
   fst (demo_streamlink (snd (demo_raises demo_stream))) = Returned True \<and>
   \<not> fst (setup_with demo_raises demo_stream) \<and>
   fst (setup_with demo_streamlink (snd (setup_with demo_raises demo_stream))) \<and>
   stream_setup demo_raises demo_streamlink demo_direct demo_stream =
     (True,
      demo_stream\<lparr>is_live := True, title := ''Live Stream'', stream_quality := Some ''720p'',
        successful_strategy := Some ''streamlink''\<rparr>,
      [YtDlp, Streamlink]) \<and>
   stream_setup demo_no_formats demo_raises demo_raises demo_stream =
     (False, demo_stream\<lparr>title := ''Unknown Video''\<rparr>, [YtDlp, Streamlink, DirectExtraction]) \<and>
   stream_setup demo_direct demo_streamlink demo_raises demo_stream =
     (True, demo_stream\<lparr>title := ''From the page'', successful_strategy := Some ''yt-dlp''\<rparr>, [YtDlp])"
  using first_success_wins [of demo_raises demo_stream demo_streamlink demo_direct demo_raises demo_direct]
    first_success_wins [of demo_no_formats demo_stream demo_raises demo_raises demo_raises demo_direct]
    first_success_wins [of demo_direct demo_stream demo_streamlink demo_raises demo_raises demo_direct]
  by (simp add: setup_with_def demo_raises_def demo_streamlink_def demo_direct_def demo_no_formats_def)

text \<open>
  Claim C7, as the code has it. After a request that got past the throttle at time
  \<open>t1\<close>, a throttled request at a time \<open>t2\<close> with \<open>t2 - t1\<close> below the minimum interval is
  dropped: it returns no path and leaves the capturer as it was. Hence in a sequence of
  throttled requests any two that proceed are at least the interval apart, however
  many requests lie between them. A request that does not proceed returns no path. The
  interval is 2 seconds from \<open>__init__\<close>.
\<close>

theorem throttle_after_capture:
  "(proceeds c t1 throttle1 \<and> t2 - t1 < min_capture_interval c \<longrightarrow>
      capture_screenshot (snd (capture_screenshot c t1 throttle1 saved1)) t2 True saved2 =
        (None, snd (capture_screenshot c t1 throttle1 saved1)) \<and>
      \<not> proceeds (snd (capture_screenshot c t1 throttle1 saved1)) t2 True) \<and>
   (0 \<le> min_capture_interval c \<and> i < j \<and> j < length reqs \<and>
    fst (capture_all c reqs ! i) \<and> fst (capture_all c reqs ! j) \<longrightarrow>
      min_capture_interval c \<le> fst (reqs ! j) - fst (reqs ! i)) \<and>
   (\<not> proceeds c t True \<longrightarrow> capture_screenshot c t True saved = (None, c)) \<and>
   min_capture_interval (init_capturer dir) = 2"
proof (intro conjI impI)
  assume a: "proceeds c t1 throttle1 \<and> t2 - t1 < min_capture_interval c"
  then have s: "snd (capture_screenshot c t1 throttle1 saved1) = c\<lparr>last_capture_time := t1\<rparr>"
    by (auto simp: proceeds_def capture_screenshot_def)
  from a show "capture_screenshot (snd (capture_screenshot c t1 throttle1 saved1)) t2 True saved2 =
        (None, snd (capture_screenshot c t1 throttle1 saved1))"
    unfolding s by (simp add: capture_screenshot_def)
  from a show "\<not> proceeds (snd (capture_screenshot c t1 throttle1 saved1)) t2 True"
    unfolding s by (simp add: proceeds_def)
next
  assume "0 \<le> min_capture_interval c \<and> i < j \<and> j < length reqs \<and>
    fst (capture_all c reqs ! i) \<and> fst (capture_all c reqs ! j)"
  then show "min_capture_interval c \<le> fst (reqs ! j) - fst (reqs ! i)"
    using captures_apart [of c i j reqs] by blast
next
  assume "\<not> proceeds c t True"
  then show "capture_screenshot c t True saved = (None, c)"
    by (simp add: proceeds_def capture_screenshot_def)
next
  show "min_capture_interval (init_capturer dir) = 2" by (simp add: init_capturer_def)
qed

text \<open>
  Requests at 100, 101.5 and 102.5 seconds: the second is dropped, the third proceeds.
\<close>

theorem throttle_after_capture_witness:
  "proceeds (init_capturer ''shots'') 100 True \<and>
   (101.5::real) - 100 < min_capture_interval (init_capturer ''shots'') \<and>
   capture_screenshot (init_capturer ''shots'') 100 True (Some ''shots/a.jpg'')
     = (Some ''shots/a.jpg'', (init_capturer ''shots'')\<lparr>last_capture_time := 100\<rparr>) \<and>
   capture_screenshot (snd (capture_screenshot (init_capturer ''shots'') 100 True (Some ''shots/a.jpg'')))
       101.5 True (Some ''shots/b.jpg'')
     = (None, (init_capturer ''shots'')\<lparr>last_capture_time := 100\<rparr>) \<and>
   (0::real) \<le> min_capture_interval (init_capturer ''shots'') \<and>
   map fst (capture_all (init_capturer ''shots'')
       [(100, Some ''shots/a.jpg''), (101.5, Some ''shots/b.jpg''), (102.5, Some ''shots/c.jpg'')])
     = [True, False, True] \<and>
   min_capture_interval (init_capturer ''shots'') \<le> (102.5::real) - 100"
  using throttle_after_capture [of "init_capturer ''shots''" 100 True "101.5" "Some ''shots/a.jpg''"
      "Some ''shots/b.jpg''" 0 2
      "[(100, Some ''shots/a.jpg''), (101.5, Some ''shots/b.jpg''), (102.5, Some ''shots/c.jpg'')]"]
  by (simp add: proceeds_def capture_screenshot_def init_capturer_def)

text \<open>
  Claim C7 as stated fails for two requests of which the first is itself dropped: the
  requests at 101.5 and 102.5 seconds are less than 2 seconds apart, the first of them
  does not proceed and the second does, and returns its path. The throttle counts from
  the last request that proceeded, not from the last request.
\<close>

theorem throttle_counterexample:
  "(102.5::real) - 101.5 < min_capture_interval (init_capturer ''shots'') \<and>
   capture_all (init_capturer ''shots'')
       [(100, Some ''shots/a.jpg''), (101.5, Some ''shots/b.jpg''), (102.5, Some ''shots/c.jpg'')]
     = [(True, Some ''shots/a.jpg''), (False, None), (True, Some ''shots/c.jpg'')]"
  by (simp add: proceeds_def capture_screenshot_def init_capturer_def)

end
